theory Spec2Isabelle
  imports Main
begin

section \<open>The request dispatcher of \<^verbatim>\<open>runtime/setup.go\<close>\<close>

text \<open>
  The development embeds \<^verbatim>\<open>handleRPC\<close>, \<^verbatim>\<open>handler\<close>, \<^verbatim>\<open>scrapeMetrics\<close> and
  \<^verbatim>\<open>Setup\<close> of \<^verbatim>\<open>runtime/setup.go\<close>. Go strings are byte strings, as \<^typ>\<open>string\<close>
  is. A panic during \<^verbatim>\<open>Setup\<close> is the left summand of the result. What the dispatcher
  does to the response writer and to the metrics package is recorded as the list of the
  calls it makes, in order.
\<close>

subsection \<open>String helpers of the Go standard library\<close>

text \<open>\<^verbatim>\<open>strings.HasPrefix(s, prefix)\<close>.\<close>

definition HasPrefix :: "string \<Rightarrow> string \<Rightarrow> bool" where
  "HasPrefix s pre = (take (length pre) s = pre)"

text \<open>\<^verbatim>\<open>strings.TrimPrefix(s, prefix)\<close>: \<^verbatim>\<open>s\<close> without the prefix when it has it, else \<^verbatim>\<open>s\<close>.\<close>

definition TrimPrefix :: "string \<Rightarrow> string \<Rightarrow> string" where
  "TrimPrefix s pre = (if HasPrefix s pre then drop (length pre) s else s)"

text \<open>\<^verbatim>\<open>strings.IndexByte(s, c)\<close>: the index of the first \<^verbatim>\<open>c\<close> in \<^verbatim>\<open>s\<close>, or \<^verbatim>\<open>-1\<close>.\<close>

fun IndexByte :: "string \<Rightarrow> char \<Rightarrow> int" where
  "IndexByte [] c = - 1"
| "IndexByte (x # xs) c =
     (if x = c then 0
      else (let i = IndexByte xs c in if i = - 1 then - 1 else i + 1))"

subsection \<open>Configuration and requests\<close>

text \<open>
  The types of package \<^verbatim>\<open>config\<close> are not part of the sources; their fields are the ones
  \<^verbatim>\<open>setup.go\<close> reads: \<^verbatim>\<open>endpoint.Name\<close>, \<^verbatim>\<open>endpoint.Path\<close>, \<^verbatim>\<open>endpoint.Methods\<close>,
  \<^verbatim>\<open>endpoint.Handler\<close>, \<^verbatim>\<open>svc.Name\<close>, \<^verbatim>\<open>svc.Endpoints\<close> and \<^verbatim>\<open>cfg.Services\<close>. The
  handler capability is the type parameter \<open>'h\<close>. The service's \<^verbatim>\<open>Name\<close> is the field
  \<open>ServiceName\<close> here, since a record field name is global.
\<close>

record 'h Endpoint =
  Name :: string
  Path :: string
  Methods :: "string list"
  Handler :: 'h

record 'h Service =
  ServiceName :: string
  Endpoints :: "'h Endpoint list"

record 'h ServerConfig =
  Services :: "'h Service list"

text \<open>Of an \<^verbatim>\<open>http.Request\<close> the dispatcher reads \<^verbatim>\<open>req.Method\<close> and \<^verbatim>\<open>req.URL.Path\<close>.\<close>

record Request =
  Method :: string
  URL_Path :: string

subsection \<open>The Router Table\<close>

text \<open>\<^verbatim>\<open>httprouter.Params\<close>: the extracted path parameters, as key and value pairs.\<close>

type_synonym Params = "(string \<times> string) list"

text \<open>
  Whether a path pattern matches a request path, and with which parameters, is decided
  inside the router library. It is a parameter of the lookup: \<open>pm pattern path\<close> is
  \<open>Some ps\<close> when the pattern matches the path with parameters \<open>ps\<close>.
\<close>

type_synonym matcher = "string \<Rightarrow> string \<Rightarrow> Params option"

text \<open>One RouteEntry per (method or wildcard marker, path pattern) pair, with its handler.\<close>

type_synonym 'h RouteEntry = "string \<times> string \<times> 'h"

text \<open>
  Modelled from the spec: the router type \<^verbatim>\<open>httprouter.Router\<close> with its methods
  \<^verbatim>\<open>Handle\<close> and \<^verbatim>\<open>Lookup\<close> is an imported library, missing from the sources. The table
  holds the registrations in the order they were made. The three flags are the fields
  \<^verbatim>\<open>Setup\<close> assigns.
\<close>

record 'h Router =
  HandleOPTIONS :: bool
  RedirectFixedPath :: bool
  RedirectTrailingSlash :: bool
  routes :: "'h RouteEntry list"

text \<open>
  Modelled from the spec: \<^verbatim>\<open>httprouter.New()\<close>, the Router Table before any
  registration. The library documents the three flags as enabled in a new router;
  \<^verbatim>\<open>Setup\<close> assigns each of them, so their initial value does not reach the server.
\<close>

definition httprouter_New :: "'h Router" where
  "httprouter_New =
     \<lparr>HandleOPTIONS = True, RedirectFixedPath = True, RedirectTrailingSlash = True,
      routes = []\<rparr>"

text \<open>What stops \<^verbatim>\<open>Setup\<close>: the method and the pattern of a registration that collides.\<close>

datatype error = RouteCollision string string

definition route_key :: "'h RouteEntry \<Rightarrow> string \<times> string" where
  "route_key e = (fst e, fst (snd e))"

text \<open>
  Modelled from the spec: \<^verbatim>\<open>Register(method, pathPattern, handler)\<close>, the library's
  \<^verbatim>\<open>Router.Handle\<close>. It inserts a binding; a second registration of the same
  (method, pattern) pair is an error at startup, and the table is not overwritten.
\<close>

definition router_Handle ::
  "string \<Rightarrow> string \<Rightarrow> 'h \<Rightarrow> 'h Router \<Rightarrow> error + 'h Router" where
  "router_Handle m pat h r =
     (if (m, pat) \<in> set (map route_key (routes r)) then Inl (RouteCollision m pat)
      else Inr (r\<lparr>routes := routes r @ [(m, pat, h)]\<rparr>))"

text \<open>The first registration under method \<open>m\<close> whose pattern matches the path.\<close>

fun lookup_routes ::
  "matcher \<Rightarrow> 'h RouteEntry list \<Rightarrow> string \<Rightarrow> string \<Rightarrow> ('h \<times> Params) option" where
  "lookup_routes pm [] m p = None"
| "lookup_routes pm (e # es) m p =
     (if fst e = m then
        (case pm (fst (snd e)) p of
           Some ps \<Rightarrow> Some (snd (snd e), ps)
         | None \<Rightarrow> lookup_routes pm es m p)
      else lookup_routes pm es m p)"

text \<open>The request path with its trailing slash removed, or added when it has none.\<close>

definition toggle_slash :: "string \<Rightarrow> string" where
  "toggle_slash p = (if p \<noteq> [] \<and> last p = CHR ''/'' then butlast p else p @ ''/'')"

text \<open>
  Modelled from the spec: \<^verbatim>\<open>Lookup(method, path)\<close>, the library's \<^verbatim>\<open>Router.Lookup\<close>.
  It returns the bound handler (\<open>None\<close> is Go's \<^verbatim>\<open>nil\<close>) and the extracted parameters if
  a pattern registered under the method matches. The third result is the one the
  dispatcher discards: on a miss, whether the path with its trailing slash toggled would
  match, the library's recommendation to redirect.
\<close>

definition router_Lookup ::
  "matcher \<Rightarrow> 'h Router \<Rightarrow> string \<Rightarrow> string \<Rightarrow> 'h option \<times> Params \<times> bool" where
  "router_Lookup pm r m p =
     (case lookup_routes pm (routes r) m p of
        Some (h, ps) \<Rightarrow> (Some h, ps, False)
      | None \<Rightarrow> (None, [], lookup_routes pm (routes r) m (toggle_slash p) \<noteq> None))"

subsection \<open>The server and its setup\<close>

text \<open>
  \<^verbatim>\<open>Server\<close>: the logger, as the entries logged through it so far (service, endpoint
  name, path of each \<^verbatim>\<open>registered endpoint\<close> message), and the router.
\<close>

record 'h Server =
  logger :: "(string \<times> string \<times> string) list"
  router :: "'h Router"

definition wildcardMethod :: string where
  "wildcardMethod = ''__ENCORE_WILDCARD__''"

text \<open>The body of the loop of \<^verbatim>\<open>handleRPC\<close>, for the methods that remain.\<close>

fun handleRPC_methods ::
  "'h Endpoint \<Rightarrow> string list \<Rightarrow> 'h Router \<Rightarrow> error + 'h Router" where
  "handleRPC_methods endpoint [] r = Inr r"
| "handleRPC_methods endpoint (m # ms) r =
     (let m' = (if m = ''*'' then wildcardMethod else m) in
      case router_Handle m' (Path endpoint) (Handler endpoint) r of
        Inl err \<Rightarrow> Inl err
      | Inr r' \<Rightarrow> handleRPC_methods endpoint ms r')"

definition handleRPC :: "string \<Rightarrow> 'h Endpoint \<Rightarrow> 'h Server \<Rightarrow> error + 'h Server" where
  "handleRPC service endpoint srv =
     (let srv1 = srv\<lparr>logger := logger srv @ [(service, Name endpoint, Path endpoint)]\<rparr> in
      case handleRPC_methods endpoint (Methods endpoint) (router srv1) of
        Inl err \<Rightarrow> Inl err
      | Inr r \<Rightarrow> Inr (srv1\<lparr>router := r\<rparr>))"

text \<open>The inner and the outer loop of \<^verbatim>\<open>Setup\<close>.\<close>

fun Setup_endpoints ::
  "string \<Rightarrow> 'h Endpoint list \<Rightarrow> 'h Server \<Rightarrow> error + 'h Server" where
  "Setup_endpoints service [] srv = Inr srv"
| "Setup_endpoints service (endpoint # es) srv =
     (case handleRPC service endpoint srv of
        Inl err \<Rightarrow> Inl err
      | Inr srv' \<Rightarrow> Setup_endpoints service es srv')"

fun Setup_services :: "'h Service list \<Rightarrow> 'h Server \<Rightarrow> error + 'h Server" where
  "Setup_services [] srv = Inr srv"
| "Setup_services (svc # svcs) srv =
     (case Setup_endpoints (ServiceName svc) (Endpoints svc) srv of
        Inl err \<Rightarrow> Inl err
      | Inr srv' \<Rightarrow> Setup_services svcs srv')"

text \<open>
  \<^verbatim>\<open>Setup\<close>, from the creation of the router on. The redirection of the process's
  output by \<^verbatim>\<open>setupLogging\<close> and the global variables \<^verbatim>\<open>RootLogger\<close> and \<^verbatim>\<open>Config\<close>
  that \<^verbatim>\<open>Setup\<close> assigns take no part in the server value returned.
\<close>

definition Setup :: "'h ServerConfig \<Rightarrow> error + 'h Server" where
  "Setup cfg =
     (let r = httprouter_New
                \<lparr>HandleOPTIONS := False, RedirectFixedPath := False,
                 RedirectTrailingSlash := False\<rparr>;
          srv = \<lparr>logger = [], router = r\<rparr>
      in Setup_services (Services cfg) srv)"

subsection \<open>The dispatcher\<close>

text \<open>
  The calls the dispatcher makes while it serves one request:
  \<^verbatim>\<open>http.Error(w, msg, code)\<close>, \<^verbatim>\<open>w.Header().Set(k, v)\<close>, \<^verbatim>\<open>w.WriteHeader(code)\<close>,
  \<^verbatim>\<open>w.Write(bytes)\<close>, \<^verbatim>\<open>metrics.UnknownEndpoint(svc, api)\<close> and the call \<^verbatim>\<open>h(w, req, p)\<close>
  of a registered handler.
\<close>

datatype 'h effect =
    HttpError string nat
  | HeaderSet string string
  | WriteHeader nat
  | Write string
  | UnknownEndpoint string string
  | Invoke 'h Request Params

definition StatusNotFound :: nat where
  "StatusNotFound = 404"

definition StatusInternalServerError :: nat where
  "StatusInternalServerError = 500"

text \<open>
  What \<^verbatim>\<open>scrapeMetrics\<close> gets from packages \<^verbatim>\<open>metrics\<close> and \<^verbatim>\<open>expfmt\<close>: the result of
  \<^verbatim>\<open>metrics.Gather()\<close>, an error message or the metric families, and for each family the
  result of \<^verbatim>\<open>enc.Encode(mf)\<close>, an error message or the bytes written to the response.
\<close>

record 'mf MetricsEnv =
  Gather :: "string + 'mf list"
  Encode :: "'mf \<Rightarrow> string + string"

fun scrapeMetrics_encode :: "'mf MetricsEnv \<Rightarrow> 'mf list \<Rightarrow> 'h effect list" where
  "scrapeMetrics_encode env [] = []"
| "scrapeMetrics_encode env (mf # mfs) =
     (case Encode env mf of
        Inl err \<Rightarrow> [HttpError (''could not encode metrics: '' @ err) StatusInternalServerError]
      | Inr bytes \<Rightarrow> Write bytes # scrapeMetrics_encode env mfs)"

definition scrapeMetrics :: "'mf MetricsEnv \<Rightarrow> 'h effect list" where
  "scrapeMetrics env =
     (case Gather env of
        Inl err \<Rightarrow> [HttpError (''could not gather metrics: '' @ err) StatusInternalServerError]
      | Inr mfs \<Rightarrow> scrapeMetrics_encode env mfs)"

text \<open>The bytes the dispatcher writes on a routing miss.\<close>

definition not_found_body :: string where
  "not_found_body =
     ''{\<newline>  \"code\": \"unknown_endpoint\",\<newline>  \"message\": \"endpoint not found\",\<newline>  \"details\": null\<newline>}\<newline>''"

definition handler ::
  "matcher \<Rightarrow> 'mf MetricsEnv \<Rightarrow> 'h Server \<Rightarrow> Request \<Rightarrow> 'h effect list" where
  "handler pm env srv req =
     (let ep = TrimPrefix (URL_Path req) ''/'' in
      if HasPrefix ep ''__encore.'' then
        (let api = drop (length ''__encore.'') ep in
         if api = ''ScrapeMetrics'' then scrapeMetrics env
         else [HttpError (''unknown internal endpoint: '' @ ep) StatusNotFound])
      else
        (let (h, p, _) = router_Lookup pm (router srv) (Method req) (URL_Path req);
             (h, p) = (if h = None
                       then (let (h', p', _) =
                                   router_Lookup pm (router srv) wildcardMethod (URL_Path req)
                             in (h', p'))
                       else (h, p))
         in case h of
              None \<Rightarrow>
                (let (svc, api) =
                       (let idx = IndexByte ep (CHR ''.'') in
                        if idx \<noteq> - 1 then (take (nat idx) ep, drop (nat (idx + 1)) ep)
                        else (''unknown'', ''Unknown''))
                 in [UnknownEndpoint svc api,
                     HeaderSet ''Content-Type'' ''application/json'',
                     WriteHeader 404,
                     Write not_found_body])
            | Some h \<Rightarrow> [Invoke h req p]))"

subsection \<open>What a configuration registers\<close>

text \<open>The method a configured method is registered under.\<close>

definition registered_method :: "string \<Rightarrow> string" where
  "registered_method m = (if m = ''*'' then wildcardMethod else m)"

text \<open>The registrations of one endpoint, and of a whole configuration, in order.\<close>

definition endpoint_routes :: "'h Endpoint \<Rightarrow> 'h RouteEntry list" where
  "endpoint_routes e = map (\<lambda>m. (registered_method m, Path e, Handler e)) (Methods e)"

definition config_endpoints :: "'h ServerConfig \<Rightarrow> 'h Endpoint list" where
  "config_endpoints cfg = concat (map Endpoints (Services cfg))"

definition config_routes :: "'h ServerConfig \<Rightarrow> 'h RouteEntry list" where
  "config_routes cfg = concat (map endpoint_routes (config_endpoints cfg))"

text \<open>Endpoint \<open>e\<close> registers its pattern under method \<open>k\<close>.\<close>

definition registered_under :: "string \<Rightarrow> 'h Endpoint \<Rightarrow> bool" where
  "registered_under k e = (k \<in> set (map registered_method (Methods e)))"

text \<open>No pattern registered under method \<open>k\<close> matches the path \<open>p\<close>.\<close>

definition no_match :: "matcher \<Rightarrow> 'h ServerConfig \<Rightarrow> string \<Rightarrow> string \<Rightarrow> bool" where
  "no_match pm cfg k p =
     (\<forall>e \<in> set (config_endpoints cfg). registered_under k e \<longrightarrow> pm (Path e) p = None)"

text \<open>Of the patterns registered under method \<open>k\<close>, none but \<open>pat\<close> matches the path \<open>p\<close>.\<close>

definition only_match ::
  "matcher \<Rightarrow> 'h ServerConfig \<Rightarrow> string \<Rightarrow> string \<Rightarrow> string \<Rightarrow> bool" where
  "only_match pm cfg k p pat =
     (\<forall>e \<in> set (config_endpoints cfg).
        registered_under k e \<and> pm (Path e) p \<noteq> None \<longrightarrow> Path e = pat)"

text \<open>The request is in the reserved namespace: the test the dispatcher starts with.\<close>

definition internal_namespace :: "Request \<Rightarrow> bool" where
  "internal_namespace req = HasPrefix (TrimPrefix (URL_Path req) ''/'') ''__encore.''"

text \<open>
  The (service, api) pair in the words of the specification: the identifier split on its
  first \<^verbatim>\<open>.\<close>, left of the dot the service, right of it the api, and the two sentinel
  values when there is no dot.
\<close>

definition unknown_endpoint_names_spec :: "string \<Rightarrow> string \<times> string" where
  "unknown_endpoint_names_spec ep =
     (if CHR ''.'' \<in> set ep
      then (takeWhile (\<lambda>c. c \<noteq> CHR ''.'') ep, tl (dropWhile (\<lambda>c. c \<noteq> CHR ''.'') ep))
      else (''unknown'', ''Unknown''))"

text \<open>The increments of the unknown-endpoint counter among the calls made.\<close>

fun unknown_endpoint_calls :: "'h effect list \<Rightarrow> (string \<times> string) list" where
  "unknown_endpoint_calls [] = []"
| "unknown_endpoint_calls (UnknownEndpoint svc api # es) = (svc, api) # unknown_endpoint_calls es"
| "unknown_endpoint_calls (e # es) = unknown_endpoint_calls es"

text \<open>The status codes written, by \<^verbatim>\<open>WriteHeader\<close> or \<^verbatim>\<open>http.Error\<close>, among the calls made.\<close>

fun written_statuses :: "'h effect list \<Rightarrow> nat list" where
  "written_statuses [] = []"
| "written_statuses (WriteHeader c # es) = c # written_statuses es"
| "written_statuses (HttpError msg c # es) = c # written_statuses es"
| "written_statuses (e # es) = written_statuses es"

subsection \<open>A pattern language and configurations for the examples\<close>

text \<open>\<^verbatim>\<open>strings.Split(s, "/")\<close>.\<close>

fun split_slash :: "string \<Rightarrow> string list" where
  "split_slash [] = [[]]"
| "split_slash (c # cs) =
     (if c = CHR ''/'' then [] # split_slash cs
      else (case split_slash cs of [] \<Rightarrow> [[c]] | s # ss \<Rightarrow> (c # s) # ss))"

text \<open>
  Modelled from the spec: path patterns may declare parameter segments and one trailing
  catch-all segment. Here a segment \<^verbatim>\<open>:name\<close> binds one non-empty segment of the path, a
  last segment \<^verbatim>\<open>*name\<close> binds the rest of the path, and any other segment matches itself.
  The theorems hold for every matcher; this one runs the examples.
\<close>

fun match_segments :: "string list \<Rightarrow> string list \<Rightarrow> Params option" where
  "match_segments [] [] = Some []"
| "match_segments [] (x # xs) = None"
| "match_segments (s # ss) [] = None"
| "match_segments (s # ss) (x # xs) =
     (case s of
        [] \<Rightarrow> (if x = [] then match_segments ss xs else None)
      | c # name \<Rightarrow>
          if c = CHR ''*'' \<and> ss = [] then Some [(name, concat (map ((#) CHR ''/'') (x # xs)))]
          else if c = CHR '':'' then
            (if x = [] then None
             else (case match_segments ss xs of
                     None \<Rightarrow> None
                   | Some ps \<Rightarrow> Some ((name, x) # ps)))
          else if s = x then match_segments ss xs
          else None)"

definition segment_match :: matcher where
  "segment_match pat p = match_segments (split_slash pat) (split_slash p)"

definition sample_env :: "string MetricsEnv" where
  "sample_env = \<lparr>Gather = Inr [''requests_total 1''], Encode = (\<lambda>mf. Inr mf)\<rparr>"

definition sample_cfg :: "string ServerConfig" where
  "sample_cfg =
     \<lparr>Services =
        [\<lparr>ServiceName = ''orders'',
          Endpoints =
            [\<lparr>Name = ''Create'', Path = ''/orders.Create'', Methods = [''POST''],
              Handler = ''orders.Create''\<rparr>,
             \<lparr>Name = ''Get'', Path = ''/orders/:id'', Methods = [''GET'', ''HEAD''],
              Handler = ''orders.Get''\<rparr>,
             \<lparr>Name = ''Any'', Path = ''/orders/:id'', Methods = [''*''],
              Handler = ''orders.Any''\<rparr>]\<rparr>,
         \<lparr>ServiceName = ''files'',
          Endpoints =
            [\<lparr>Name = ''List'', Path = ''/files'', Methods = [''GET''],
              Handler = ''files.List''\<rparr>,
             \<lparr>Name = ''Index'', Path = ''/files/'', Methods = [''GET''],
              Handler = ''files.Index''\<rparr>]\<rparr>]\<rparr>"

definition sample_srv :: "string Server" where
  "sample_srv =
     \<lparr>logger =
        [(''orders'', ''Create'', ''/orders.Create''),
         (''orders'', ''Get'', ''/orders/:id''),
         (''orders'', ''Any'', ''/orders/:id''),
         (''files'', ''List'', ''/files''),
         (''files'', ''Index'', ''/files/'')],
      router =
        \<lparr>HandleOPTIONS = False, RedirectFixedPath = False, RedirectTrailingSlash = False,
         routes =
           [(''POST'', ''/orders.Create'', ''orders.Create''),
            (''GET'', ''/orders/:id'', ''orders.Get''),
            (''HEAD'', ''/orders/:id'', ''orders.Get''),
            (''__ENCORE_WILDCARD__'', ''/orders/:id'', ''orders.Any''),
            (''GET'', ''/files'', ''files.List''),
            (''GET'', ''/files/'', ''files.Index'')]\<rparr>\<rparr>"

text \<open>A configuration whose endpoints lie in the reserved namespace.\<close>

definition reserved_cfg :: "string ServerConfig" where
  "reserved_cfg =
     \<lparr>Services =
        [\<lparr>ServiceName = ''admin'',
          Endpoints =
            [\<lparr>Name = ''Ping'', Path = ''/__encore.Ping'', Methods = [''GET''],
              Handler = ''admin.Ping''\<rparr>,
             \<lparr>Name = ''PingAny'', Path = ''/__encore.Ping'', Methods = [''*''],
              Handler = ''admin.PingAny''\<rparr>,
             \<lparr>Name = ''Scrape'', Path = ''/__encore.ScrapeMetrics'', Methods = [''GET''],
              Handler = ''admin.Scrape''\<rparr>,
             \<lparr>Name = ''ScrapeAny'', Path = ''/__encore.ScrapeMetrics'', Methods = [''*''],
              Handler = ''admin.ScrapeAny''\<rparr>]\<rparr>]\<rparr>"

definition reserved_srv :: "string Server" where
  "reserved_srv =
     \<lparr>logger =
        [(''admin'', ''Ping'', ''/__encore.Ping''),
         (''admin'', ''PingAny'', ''/__encore.Ping''),
         (''admin'', ''Scrape'', ''/__encore.ScrapeMetrics''),
         (''admin'', ''ScrapeAny'', ''/__encore.ScrapeMetrics'')],
      router =
        \<lparr>HandleOPTIONS = False, RedirectFixedPath = False, RedirectTrailingSlash = False,
         routes =
           [(''GET'', ''/__encore.Ping'', ''admin.Ping''),
            (''__ENCORE_WILDCARD__'', ''/__encore.Ping'', ''admin.PingAny''),
            (''GET'', ''/__encore.ScrapeMetrics'', ''admin.Scrape''),
            (''__ENCORE_WILDCARD__'', ''/__encore.ScrapeMetrics'', ''admin.ScrapeAny'')]\<rparr>\<rparr>"

text \<open>A configuration in which two endpoints register the same method and pattern.\<close>

definition duplicate_cfg :: "string ServerConfig" where
  "duplicate_cfg =
     \<lparr>Services =
        [\<lparr>ServiceName = ''orders'',
          Endpoints =
            [\<lparr>Name = ''List'', Path = ''/orders'', Methods = [''GET''],
              Handler = ''orders.List''\<rparr>]\<rparr>,
         \<lparr>ServiceName = ''legacy'',
          Endpoints =
            [\<lparr>Name = ''Orders'', Path = ''/orders'', Methods = [''POST'', ''GET''],
              Handler = ''legacy.Orders''\<rparr>]\<rparr>]\<rparr>"



section \<open>Setup builds the table of the configuration\<close>

lemma handleRPC_methods_Inr:
  "handleRPC_methods e ms r = Inr r' \<Longrightarrow>
     r' = r\<lparr>routes := routes r @ map (\<lambda>m. (registered_method m, Path e, Handler e)) ms\<rparr> \<and>
     (distinct (map route_key (routes r)) \<longrightarrow> distinct (map route_key (routes r')))"
proof (induction ms arbitrary: r)
  case Nil
  then show ?case by simp
next
  case (Cons m ms)
  let ?m = "registered_method m"
  from Cons.prems obtain r1 where
    h: "router_Handle ?m (Path e) (Handler e) r = Inr r1" and
    rest: "handleRPC_methods e ms r1 = Inr r'"
    by (auto simp: registered_method_def Let_def split: sum.splits)
  from h have r1: "r1 = r\<lparr>routes := routes r @ [(?m, Path e, Handler e)]\<rparr>"
    and fresh: "(?m, Path e) \<notin> set (map route_key (routes r))"
    by (auto simp: router_Handle_def split: if_splits)
  from Cons.IH [OF rest] have
    r2: "r' = r1\<lparr>routes := routes r1 @
                 map (\<lambda>m. (registered_method m, Path e, Handler e)) ms\<rparr>" and
    d2: "distinct (map route_key (routes r1)) \<longrightarrow> distinct (map route_key (routes r'))"
    by blast+
  from fresh have d1: "distinct (map route_key (routes r)) \<longrightarrow>
      distinct (map route_key (routes r1))"
    by (simp add: r1 route_key_def)
  from r2 have "r' = r\<lparr>routes := routes r @
      map (\<lambda>m. (registered_method m, Path e, Handler e)) (m # ms)\<rparr>"
    by (simp add: r1)
  with d1 d2 show ?case by blast
qed

lemma handleRPC_Inr:
  "handleRPC service e srv = Inr srv' \<Longrightarrow>
     router srv' = (router srv)\<lparr>routes := routes (router srv) @ endpoint_routes e\<rparr> \<and>
     (distinct (map route_key (routes (router srv))) \<longrightarrow>
        distinct (map route_key (routes (router srv'))))"
  by (auto simp: handleRPC_def Let_def endpoint_routes_def split: sum.splits
           dest!: handleRPC_methods_Inr)

lemma Setup_endpoints_Inr:
  "Setup_endpoints service es srv = Inr srv' \<Longrightarrow>
     router srv' =
       (router srv)\<lparr>routes := routes (router srv) @ concat (map endpoint_routes es)\<rparr> \<and>
     (distinct (map route_key (routes (router srv))) \<longrightarrow>
        distinct (map route_key (routes (router srv'))))"
proof (induction es arbitrary: srv)
  case Nil
  then show ?case by simp
next
  case (Cons e es)
  from Cons.prems obtain srv1 where
    h: "handleRPC service e srv = Inr srv1" and
    rest: "Setup_endpoints service es srv1 = Inr srv'"
    by (auto split: sum.splits)
  from handleRPC_Inr [OF h] have
    r1: "router srv1 = (router srv)\<lparr>routes := routes (router srv) @ endpoint_routes e\<rparr>" and
    d1: "distinct (map route_key (routes (router srv))) \<longrightarrow>
           distinct (map route_key (routes (router srv1)))"
    by blast+
  from Cons.IH [OF rest] have
    r2: "router srv' =
           (router srv1)\<lparr>routes := routes (router srv1) @ concat (map endpoint_routes es)\<rparr>" and
    d2: "distinct (map route_key (routes (router srv1))) \<longrightarrow>
           distinct (map route_key (routes (router srv')))"
    by blast+
  from r2 have "router srv' =
      (router srv)\<lparr>routes := routes (router srv) @ concat (map endpoint_routes (e # es))\<rparr>"
    by (simp add: r1)
  with d1 d2 show ?case by blast
qed

lemma Setup_services_Inr:
  "Setup_services svcs srv = Inr srv' \<Longrightarrow>
     router srv' =
       (router srv)\<lparr>routes := routes (router srv) @
          concat (map endpoint_routes (concat (map Endpoints svcs)))\<rparr> \<and>
     (distinct (map route_key (routes (router srv))) \<longrightarrow>
        distinct (map route_key (routes (router srv'))))"
proof (induction svcs arbitrary: srv)
  case Nil
  then show ?case by simp
next
  case (Cons s svcs)
  from Cons.prems obtain srv1 where
    h: "Setup_endpoints (ServiceName s) (Endpoints s) srv = Inr srv1" and
    rest: "Setup_services svcs srv1 = Inr srv'"
    by (auto split: sum.splits)
  from Setup_endpoints_Inr [OF h] have
    r1: "router srv1 =
           (router srv)\<lparr>routes := routes (router srv) @
              concat (map endpoint_routes (Endpoints s))\<rparr>" and
    d1: "distinct (map route_key (routes (router srv))) \<longrightarrow>
           distinct (map route_key (routes (router srv1)))"
    by blast+
  from Cons.IH [OF rest] have
    r2: "router srv' =
           (router srv1)\<lparr>routes := routes (router srv1) @
              concat (map endpoint_routes (concat (map Endpoints svcs)))\<rparr>" and
    d2: "distinct (map route_key (routes (router srv1))) \<longrightarrow>
           distinct (map route_key (routes (router srv')))"
    by blast+
  from r2 have "router srv' =
      (router srv)\<lparr>routes := routes (router srv) @
         concat (map endpoint_routes (concat (map Endpoints (s # svcs))))\<rparr>"
    by (simp add: r1)
  with d1 d2 show ?case by blast
qed

lemma Setup_Inr:
  assumes "Setup cfg = Inr srv"
  shows "router srv =
           \<lparr>HandleOPTIONS = False, RedirectFixedPath = False, RedirectTrailingSlash = False,
            routes = config_routes cfg\<rparr>"
    and "distinct (map route_key (config_routes cfg))"
proof -
  let ?srv0 = "\<lparr>logger = [], router = httprouter_New
      \<lparr>HandleOPTIONS := False, RedirectFixedPath := False,
       RedirectTrailingSlash := False\<rparr>\<rparr> :: 'a Server"
  from assms have run: "Setup_services (Services cfg) ?srv0 = Inr srv"
    by (simp add: Setup_def Let_def)
  from Setup_services_Inr [OF run] have
    r: "router srv = (router ?srv0)\<lparr>routes := routes (router ?srv0) @
          concat (map endpoint_routes (concat (map Endpoints (Services cfg))))\<rparr>" and
    d: "distinct (map route_key (routes (router ?srv0))) \<longrightarrow>
          distinct (map route_key (routes (router srv)))"
    by blast+
  from r show "router srv =
           \<lparr>HandleOPTIONS = False, RedirectFixedPath = False, RedirectTrailingSlash = False,
            routes = config_routes cfg\<rparr>"
    by (simp add: httprouter_New_def config_routes_def config_endpoints_def)
  then have "routes (router srv) = config_routes cfg" by simp
  moreover have "distinct (map route_key (routes (router ?srv0)))"
    by (simp add: httprouter_New_def)
  ultimately show "distinct (map route_key (config_routes cfg))"
    using d by simp
qed


section \<open>The branches of the dispatcher\<close>

lemma IndexByte_absent: "c \<notin> set s \<Longrightarrow> IndexByte s c = - 1"
  by (induction s) (auto simp: Let_def)

lemma IndexByte_present:
  "c \<in> set s \<Longrightarrow> IndexByte s c = int (length (takeWhile (\<lambda>x. x \<noteq> c) s))"
  by (induction s) (auto simp: Let_def IndexByte_absent)

lemma drop_Suc_takeWhile: "drop (Suc (length (takeWhile P s))) s = tl (dropWhile P s)"
  by (induction s) auto

lemma take_length_takeWhile: "take (length (takeWhile P s)) s = takeWhile P s"
  by (induction s) auto

lemma code_names_eq_spec:
  "(let idx = IndexByte ep (CHR ''.'') in
      if idx \<noteq> - 1 then (take (nat idx) ep, drop (nat (idx + 1)) ep)
      else (''unknown'', ''Unknown'')) = unknown_endpoint_names_spec ep"
proof (cases "CHR ''.'' \<in> set ep")
  case True
  have "nat (int (length (takeWhile (\<lambda>x. x \<noteq> CHR ''.'') ep)) + 1) =
        Suc (length (takeWhile (\<lambda>x. x \<noteq> CHR ''.'') ep))"
    by simp
  with True show ?thesis
    by (simp add: unknown_endpoint_names_spec_def IndexByte_present Let_def
          take_length_takeWhile drop_Suc_takeWhile)
next
  case False
  then show ?thesis
    by (simp add: unknown_endpoint_names_spec_def IndexByte_absent)
qed

lemma handler_internal:
  "internal_namespace req \<Longrightarrow>
   handler pm env srv req =
     (if drop (length ''__encore.'') (TrimPrefix (URL_Path req) ''/'') = ''ScrapeMetrics''
      then scrapeMetrics env
      else [HttpError (''unknown internal endpoint: '' @ TrimPrefix (URL_Path req) ''/'') 404])"
  unfolding handler_def internal_namespace_def Let_def StatusNotFound_def
  by (simp only: if_True)

lemma handler_exact:
  "\<not> internal_namespace req \<Longrightarrow>
   lookup_routes pm (routes (router srv)) (Method req) (URL_Path req) = Some (h, ps) \<Longrightarrow>
   handler pm env srv req = [Invoke h req ps]"
  by (simp add: handler_def internal_namespace_def Let_def router_Lookup_def)

lemma handler_wildcard:
  "\<not> internal_namespace req \<Longrightarrow>
   lookup_routes pm (routes (router srv)) (Method req) (URL_Path req) = None \<Longrightarrow>
   lookup_routes pm (routes (router srv)) wildcardMethod (URL_Path req) = Some (h, ps) \<Longrightarrow>
   handler pm env srv req = [Invoke h req ps]"
  by (simp add: handler_def internal_namespace_def Let_def router_Lookup_def)

lemma handler_miss:
  "\<not> internal_namespace req \<Longrightarrow>
   lookup_routes pm (routes (router srv)) (Method req) (URL_Path req) = None \<Longrightarrow>
   lookup_routes pm (routes (router srv)) wildcardMethod (URL_Path req) = None \<Longrightarrow>
   handler pm env srv req =
     [UnknownEndpoint (fst (unknown_endpoint_names_spec (TrimPrefix (URL_Path req) ''/'')))
                      (snd (unknown_endpoint_names_spec (TrimPrefix (URL_Path req) ''/''))),
      HeaderSet ''Content-Type'' ''application/json'',
      WriteHeader 404,
      Write not_found_body]"
proof -
  assume a: "\<not> internal_namespace req"
    "lookup_routes pm (routes (router srv)) (Method req) (URL_Path req) = None"
    "lookup_routes pm (routes (router srv)) wildcardMethod (URL_Path req) = None"
  let ?ep = "TrimPrefix (URL_Path req) ''/''"
  let ?names = "(let idx = IndexByte ?ep (CHR ''.'') in
      if idx \<noteq> - 1 then (take (nat idx) ?ep, drop (nat (idx + 1)) ?ep)
      else (''unknown'', ''Unknown''))"
  from a have "handler pm env srv req =
     [UnknownEndpoint (fst ?names) (snd ?names),
      HeaderSet ''Content-Type'' ''application/json'', WriteHeader 404, Write not_found_body]"
    by (simp add: handler_def internal_namespace_def router_Lookup_def case_prod_beta
          Let_def)
  then show ?thesis
    by (simp only: code_names_eq_spec)
qed

lemma lookup_routes_None_iff:
  "lookup_routes pm rs m p = None \<longleftrightarrow>
     (\<forall>e \<in> set rs. fst e = m \<longrightarrow> pm (fst (snd e)) p = None)"
  by (induction rs) (auto split: option.splits)

lemma lookup_routes_unique:
  assumes "e \<in> set rs" and "fst e = m" and "pm (fst (snd e)) p = Some ps"
    and "\<And>e'. e' \<in> set rs \<Longrightarrow> fst e' = m \<Longrightarrow> pm (fst (snd e')) p \<noteq> None \<Longrightarrow> e' = e"
  shows "lookup_routes pm rs m p = Some (snd (snd e), ps)"
  using assms
proof (induction rs)
  case Nil
  then show ?case by simp
next
  case (Cons a rs)
  show ?case
  proof (cases "fst a = m \<and> pm (fst (snd a)) p \<noteq> None")
    case True
    then have "a = e"
      using Cons.prems(4) [of a] by simp
    then show ?thesis
      using Cons.prems(2,3) by simp
  next
    case False
    then have "a \<noteq> e"
      using Cons.prems(2,3) by auto
    with Cons.prems(1) have mem: "e \<in> set rs"
      by simp
    have "lookup_routes pm rs m p = Some (snd (snd e), ps)"
    proof (rule Cons.IH [OF mem Cons.prems(2,3)])
      fix e' assume "e' \<in> set rs" "fst e' = m" "pm (fst (snd e')) p \<noteq> None"
      then show "e' = e"
        using Cons.prems(4) [of e'] by simp
    qed
    with False show ?thesis
      by (cases "fst a = m") (simp_all split: option.splits)
  qed
qed

lemma route_key_inj:
  "distinct (map route_key rs) \<Longrightarrow> a \<in> set rs \<Longrightarrow> b \<in> set rs \<Longrightarrow>
   route_key a = route_key b \<Longrightarrow> a = b"
  by (meson distinct_map inj_onD)

lemma set_config_routes:
  "set (config_routes cfg) =
     {(registered_method m, Path e, Handler e) | e m.
        e \<in> set (config_endpoints cfg) \<and> m \<in> set (Methods e)}"
  by (auto simp: config_routes_def endpoint_routes_def)

lemma Setup_lookup_registered:
  assumes ok: "Setup cfg = Inr srv"
    and e: "e \<in> set (config_endpoints cfg)" "registered_under k e"
    and mt: "pm (Path e) p = Some ps"
    and uniq: "only_match pm cfg k p (Path e)"
  shows "lookup_routes pm (routes (router srv)) k p = Some (Handler e, ps)"
proof -
  let ?rs = "config_routes cfg"
  let ?r = "(k, Path e, Handler e)"
  from Setup_Inr [OF ok] have rs: "routes (router srv) = ?rs"
    and dist: "distinct (map route_key ?rs)"
    by simp_all
  from e have mem: "?r \<in> set ?rs"
    by (auto simp: set_config_routes registered_under_def)
  have only: "r' = ?r"
    if r': "r' \<in> set ?rs" and hit: "fst r' = k \<and> pm (fst (snd r')) p \<noteq> None" for r'
  proof -
    from r' obtain e' m' where e': "e' \<in> set (config_endpoints cfg)" "m' \<in> set (Methods e')"
      and r'_eq: "r' = (registered_method m', Path e', Handler e')"
      by (auto simp: set_config_routes)
    from e' hit r'_eq have "registered_under k e'" "pm (Path e') p \<noteq> None"
      by (auto simp: registered_under_def)
    with uniq e' have "Path e' = Path e"
      by (simp add: only_match_def)
    with hit r'_eq have "route_key r' = route_key ?r"
      by (simp add: route_key_def)
    with dist r' mem show "r' = ?r"
      by (rule route_key_inj)
  qed
  have "lookup_routes pm ?rs k p = Some (snd (snd ?r), ps)"
  proof (rule lookup_routes_unique [OF mem])
    show "fst ?r = k" by simp
    show "pm (fst (snd ?r)) p = Some ps" using mt by simp
    show "\<And>e'. e' \<in> set ?rs \<Longrightarrow> fst e' = k \<Longrightarrow> pm (fst (snd e')) p \<noteq> None \<Longrightarrow> e' = ?r"
      using only by blast
  qed
  then show ?thesis
    by (simp add: rs)
qed

lemma Setup_lookup_none:
  assumes ok: "Setup cfg = Inr srv" and none: "no_match pm cfg k p"
  shows "lookup_routes pm (routes (router srv)) k p = None"
proof -
  from Setup_Inr [OF ok] have rs: "routes (router srv) = config_routes cfg"
    by simp
  have "\<forall>r \<in> set (config_routes cfg). fst r = k \<longrightarrow> pm (fst (snd r)) p = None"
  proof (intro ballI impI)
    fix r assume r: "r \<in> set (config_routes cfg)" and k: "fst r = k"
    from r obtain e m where e: "e \<in> set (config_endpoints cfg)" "m \<in> set (Methods e)"
      and r_eq: "r = (registered_method m, Path e, Handler e)"
      by (auto simp: set_config_routes)
    from e k r_eq have "registered_under k e"
      by (auto simp: registered_under_def)
    with none e have "pm (Path e) p = None"
      by (simp add: no_match_def)
    then show "pm (fst (snd r)) p = None"
      by (simp add: r_eq)
  qed
  then show ?thesis
    by (simp add: rs lookup_routes_None_iff)
qed

section \<open>The example configurations\<close>

lemma sample_setup: "Setup sample_cfg = Inr sample_srv"
  by (simp add: Setup_def sample_cfg_def sample_srv_def httprouter_New_def handleRPC_def
        router_Handle_def route_key_def wildcardMethod_def Let_def)

lemma reserved_setup: "Setup reserved_cfg = Inr reserved_srv"
  by (simp add: Setup_def reserved_cfg_def reserved_srv_def httprouter_New_def handleRPC_def
        router_Handle_def route_key_def wildcardMethod_def Let_def)

lemma sample_scrape: "scrapeMetrics sample_env = ([Write ''requests_total 1''] :: string effect list)"
  by (simp add: scrapeMetrics_def sample_env_def)

lemma router_Lookup_None:
  "fst (router_Lookup pm r m p) = None \<longleftrightarrow> lookup_routes pm (routes r) m p = None"
  by (simp add: router_Lookup_def split: option.splits)

lemma registered_under_self: "m \<in> set (Methods e) \<Longrightarrow> m \<noteq> ''*'' \<Longrightarrow> registered_under m e"
  by (force simp: registered_under_def registered_method_def)

lemma registered_under_star: "''*'' \<in> set (Methods e) \<Longrightarrow> registered_under wildcardMethod e"
  by (force simp: registered_under_def registered_method_def)

lemma sample_endpoints:
  "config_endpoints sample_cfg =
     [\<lparr>Name = ''Create'', Path = ''/orders.Create'', Methods = [''POST''],
       Handler = ''orders.Create''\<rparr>,
      \<lparr>Name = ''Get'', Path = ''/orders/:id'', Methods = [''GET'', ''HEAD''],
       Handler = ''orders.Get''\<rparr>,
      \<lparr>Name = ''Any'', Path = ''/orders/:id'', Methods = [''*''],
       Handler = ''orders.Any''\<rparr>,
      \<lparr>Name = ''List'', Path = ''/files'', Methods = [''GET''],
       Handler = ''files.List''\<rparr>,
      \<lparr>Name = ''Index'', Path = ''/files/'', Methods = [''GET''],
       Handler = ''files.Index''\<rparr>]"
  by (simp add: config_endpoints_def sample_cfg_def)

lemma router_Lookup_hit:
  "lookup_routes pm (routes r) m p = Some (h, ps) \<Longrightarrow> router_Lookup pm r m p = (Some h, ps, False)"
  by (simp add: router_Lookup_def)

lemma concat_not_distinct:
  assumes "i < j" and "j < length xss" and "x \<in> set (xss ! i)" and "x \<in> set (xss ! j)"
  shows "\<not> distinct (concat xss)"
proof -
  from assms(2) have split: "xss = take j xss @ xss ! j # drop (Suc j) xss"
    by (rule id_take_nth_drop)
  from assms(1,2) have "xss ! i \<in> set (take j xss)"
    by (metis in_set_conv_nth length_take min_less_iff_conj nth_take order_less_trans)
  with assms(3) have "x \<in> set (concat (take j xss))"
    by auto
  with assms(4) have "\<not> distinct (concat (take j xss @ xss ! j # drop (Suc j) xss))"
    by auto
  with split show ?thesis
    by simp
qed

lemma Setup_fails:
  assumes "\<not> distinct (map route_key (config_routes cfg))"
  shows "\<exists>err. Setup cfg = Inl err"
proof (cases "Setup cfg")
  case (Inl err)
  then show ?thesis by blast
next
  case (Inr srv)
  from Setup_Inr(2) [OF Inr] assms show ?thesis
    by contradiction
qed





lemma scrapeMetrics_encode_statuses:
  "set (written_statuses (scrapeMetrics_encode env mfs :: 'h effect list)) \<subseteq> {500}"
  by (induction mfs) (auto simp: StatusInternalServerError_def split: sum.splits)

lemma scrapeMetrics_statuses:
  "set (written_statuses (scrapeMetrics env :: 'h effect list)) \<subseteq> {500}"
  using scrapeMetrics_encode_statuses [of env]
  by (auto simp: scrapeMetrics_def StatusInternalServerError_def split: sum.splits)

lemma handler_statuses: "set (written_statuses (handler pm env srv req)) \<subseteq> {404, 500}"
proof (cases "internal_namespace req")
  case True
  from handler_internal [OF True, of pm env srv] scrapeMetrics_statuses [of env]
  show ?thesis
    by (auto split: if_splits)
next
  case False
  show ?thesis
  proof (cases "lookup_routes pm (routes (router srv)) (Method req) (URL_Path req)")
    case (Some hp)
    with handler_exact [OF False, of pm srv "fst hp" "snd hp" env] show ?thesis
      by simp
  next
    case None
    show ?thesis
    proof (cases "lookup_routes pm (routes (router srv)) wildcardMethod (URL_Path req)")
      case (Some hp)
      with handler_wildcard [OF False None, of "fst hp" "snd hp" env] show ?thesis
        by simp
    next
      case None': None
      from handler_miss [OF False None None', of env] show ?thesis
        by simp
    qed
  qed
qed

section \<open>The claims\<close>

text \<open>
  Claim C4. A request whose path, after the leading \<^verbatim>\<open>/\<close> is stripped, begins with
  \<^verbatim>\<open>__encore.\<close> is answered in the reserved namespace: the answer is the metrics scrape or
  the unknown-internal-endpoint error, it is the same for every router table and every
  matcher, so the table is never consulted, and \<^verbatim>\<open>/__encore.ScrapeMetrics\<close> runs the
  metrics scrape whatever the configuration registers.
\<close>

theorem internal_namespace_first:
  assumes "internal_namespace req"
  shows "handler pm env srv req =
           (if drop (length ''__encore.'') (TrimPrefix (URL_Path req) ''/'') = ''ScrapeMetrics''
            then scrapeMetrics env
            else [HttpError (''unknown internal endpoint: '' @ TrimPrefix (URL_Path req) ''/'')
                    404])
         \<and> handler pm env srv req = handler pm' env srv' req
         \<and> (URL_Path req = ''/__encore.ScrapeMetrics'' \<longrightarrow>
              handler pm env srv req = scrapeMetrics env)"
proof -
  have "handler pm env srv req = handler pm' env srv' req"
    using assms by (simp only: handler_internal)
  moreover have "handler pm env srv req = scrapeMetrics env"
    if "URL_Path req = ''/__encore.ScrapeMetrics''"
    using assms that by (simp add: handler_internal TrimPrefix_def HasPrefix_def)
  ultimately show ?thesis
    using handler_internal [OF assms] by blast
qed

theorem internal_namespace_first_witness:
  "Setup reserved_cfg = Inr reserved_srv
   \<and> (''GET'', ''/__encore.ScrapeMetrics'', ''admin.Scrape'') \<in> set (routes (router reserved_srv))
   \<and> handler segment_match sample_env reserved_srv
        \<lparr>Method = ''GET'', URL_Path = ''/__encore.ScrapeMetrics''\<rparr> =
      [Write ''requests_total 1'']"
  using internal_namespace_first
          [of "\<lparr>Method = ''GET'', URL_Path = ''/__encore.ScrapeMetrics''\<rparr>"
              segment_match sample_env reserved_srv segment_match reserved_srv]
  by (simp add: reserved_setup sample_scrape internal_namespace_def TrimPrefix_def
        HasPrefix_def reserved_srv_def)

text \<open>
  Claim C7, as amended. A request to a reserved-namespace path whose name after the prefix
  is not \<^verbatim>\<open>ScrapeMetrics\<close> is answered by \<^verbatim>\<open>http.Error\<close> with status 404 and the message
  \<^verbatim>\<open>unknown internal endpoint: \<close> followed by the whole identifier, the prefix
  \<^verbatim>\<open>__encore.\<close> included.
\<close>

theorem unknown_internal_endpoint:
  assumes "TrimPrefix (URL_Path req) ''/'' = ''__encore.'' @ name"
    and "name \<noteq> ''ScrapeMetrics''"
  shows "handler pm env srv req =
           [HttpError (''unknown internal endpoint: __encore.'' @ name) 404]"
proof -
  from assms(1) have "internal_namespace req"
    by (simp add: internal_namespace_def HasPrefix_def)
  from handler_internal [OF this] assms show ?thesis
    by simp
qed

theorem unknown_internal_endpoint_witness:
  "handler segment_match sample_env sample_srv
     \<lparr>Method = ''GET'', URL_Path = ''/__encore.NotARealAPI''\<rparr> =
   [HttpError ''unknown internal endpoint: __encore.NotARealAPI'' 404]"
  using unknown_internal_endpoint
          [of "\<lparr>Method = ''GET'', URL_Path = ''/__encore.NotARealAPI''\<rparr>" "''NotARealAPI''"
              segment_match sample_env sample_srv]
  by (simp add: TrimPrefix_def HasPrefix_def)

text \<open>
  Claim C7 as stated fails: for \<^verbatim>\<open>/__encore.NotARealAPI\<close> the message is not
  \<^verbatim>\<open>unknown internal endpoint: NotARealAPI\<close>.
\<close>

theorem unknown_internal_endpoint_counterexample:
  "handler segment_match sample_env sample_srv
     \<lparr>Method = ''GET'', URL_Path = ''/__encore.NotARealAPI''\<rparr> \<noteq>
   [HttpError ''unknown internal endpoint: NotARealAPI'' 404]"
  by (simp add: handler_def TrimPrefix_def HasPrefix_def StatusNotFound_def)

text \<open>
  Claim C5. A request outside the reserved namespace that matches no registration under
  its method or under the wildcard marker is answered with the content type
  \<^verbatim>\<open>application/json\<close>, status 404 and the fixed body, after one increment of the
  unknown-endpoint counter.
\<close>

theorem routing_miss_response:
  assumes "\<not> internal_namespace req"
    and "\<forall>r \<in> set (routes (router srv)).
           fst r = Method req \<or> fst r = wildcardMethod \<longrightarrow> pm (fst (snd r)) (URL_Path req) = None"
  shows "\<exists>svc api. handler pm env srv req =
           [UnknownEndpoint svc api,
            HeaderSet ''Content-Type'' ''application/json'',
            WriteHeader 404,
            Write ''{\<newline>  \"code\": \"unknown_endpoint\",\<newline>  \"message\": \"endpoint not found\",\<newline>  \"details\": null\<newline>}\<newline>'']"
proof -
  from assms(2) have
    "lookup_routes pm (routes (router srv)) (Method req) (URL_Path req) = None"
    "lookup_routes pm (routes (router srv)) wildcardMethod (URL_Path req) = None"
    by (simp_all add: lookup_routes_None_iff)
  from handler_miss [OF assms(1) this, where env = env] show ?thesis
    by (simp add: not_found_body_def)
qed

theorem routing_miss_response_witness:
  "handler segment_match sample_env sample_srv \<lparr>Method = ''PUT'', URL_Path = ''/files''\<rparr> =
     [UnknownEndpoint ''unknown'' ''Unknown'',
      HeaderSet ''Content-Type'' ''application/json'',
      WriteHeader 404,
      Write ''{\<newline>  \"code\": \"unknown_endpoint\",\<newline>  \"message\": \"endpoint not found\",\<newline>  \"details\": null\<newline>}\<newline>'']"
  using routing_miss_response
          [of "\<lparr>Method = ''PUT'', URL_Path = ''/files''\<rparr>" sample_srv segment_match sample_env]
  by (simp add: internal_namespace_def TrimPrefix_def HasPrefix_def sample_srv_def
        wildcardMethod_def segment_match_def handler_def router_Lookup_def)

text \<open>
  Claim C6. A request that reaches the routing-miss branch increments the unknown-endpoint
  counter exactly once, with the pair the specification derives from the path without its
  leading \<^verbatim>\<open>/\<close>: split on the first dot, or \<^verbatim>\<open>("unknown", "Unknown")\<close> without a dot.
\<close>

theorem routing_miss_counter:
  assumes "\<not> internal_namespace req"
    and "fst (router_Lookup pm (router srv) (Method req) (URL_Path req)) = None"
    and "fst (router_Lookup pm (router srv) wildcardMethod (URL_Path req)) = None"
  shows "unknown_endpoint_calls (handler pm env srv req) =
           [unknown_endpoint_names_spec (TrimPrefix (URL_Path req) ''/'')]"
  using handler_miss [OF assms(1) assms(2) [unfolded router_Lookup_None]
          assms(3) [unfolded router_Lookup_None], where env = env]
  by simp

theorem routing_miss_counter_witness:
  "unknown_endpoint_calls
     (handler segment_match sample_env sample_srv
        \<lparr>Method = ''GET'', URL_Path = ''/orders.Create''\<rparr>) = [(''orders'', ''Create'')]
   \<and> unknown_endpoint_calls
     (handler segment_match sample_env sample_srv
        \<lparr>Method = ''GET'', URL_Path = ''/bogus''\<rparr>) = [(''unknown'', ''Unknown'')]"
  using routing_miss_counter
          [of "\<lparr>Method = ''GET'', URL_Path = ''/orders.Create''\<rparr>" segment_match sample_srv
              sample_env]
        routing_miss_counter
          [of "\<lparr>Method = ''GET'', URL_Path = ''/bogus''\<rparr>" segment_match sample_srv
              sample_env]
  by (simp add: internal_namespace_def TrimPrefix_def HasPrefix_def sample_srv_def
        wildcardMethod_def segment_match_def router_Lookup_def
        unknown_endpoint_names_spec_def)

text \<open>
  Claim C1, as amended. For every (method, path) pair registered from the configuration
  with a method other than \<^verbatim>\<open>*\<close>, a request outside the reserved namespace with exactly
  that method and a path that matches that pattern, and no other pattern registered under
  the method, is dispatched to the endpoint's handler, which is invoked with the request
  and the parameters extracted from the path.
\<close>

theorem exact_method_dispatch:
  assumes "Setup cfg = Inr srv"
    and "e \<in> set (config_endpoints cfg)" and "m \<in> set (Methods e)" and "m \<noteq> ''*''"
    and "Method req = m"
    and "pm (Path e) (URL_Path req) = Some ps"
    and "only_match pm cfg m (URL_Path req) (Path e)"
    and "\<not> internal_namespace req"
  shows "handler pm env srv req = [Invoke (Handler e) req ps]"
proof -
  from assms(3,4) have "registered_under m e"
    by (rule registered_under_self)
  from Setup_lookup_registered [OF assms(1,2) this assms(6,7)] assms(5)
  have "lookup_routes pm (routes (router srv)) (Method req) (URL_Path req) = Some (Handler e, ps)"
    by simp
  with assms(8) show ?thesis
    by (rule handler_exact)
qed

theorem exact_method_dispatch_witness:
  "Setup sample_cfg = Inr sample_srv
   \<and> handler segment_match sample_env sample_srv \<lparr>Method = ''GET'', URL_Path = ''/orders/7''\<rparr> =
       [Invoke ''orders.Get'' \<lparr>Method = ''GET'', URL_Path = ''/orders/7''\<rparr> [(''id'', ''7'')]]"
  using exact_method_dispatch
          [of sample_cfg sample_srv
              "\<lparr>Name = ''Get'', Path = ''/orders/:id'', Methods = [''GET'', ''HEAD''],
                Handler = ''orders.Get''\<rparr>"
              "''GET''" "\<lparr>Method = ''GET'', URL_Path = ''/orders/7''\<rparr>" segment_match
              "[(''id'', ''7'')]" sample_env]
  by (simp add: sample_setup sample_endpoints only_match_def registered_under_def
        registered_method_def wildcardMethod_def segment_match_def internal_namespace_def
        TrimPrefix_def HasPrefix_def)

text \<open>
  Claim C1 as stated fails for a pair registered in the reserved namespace: the endpoint
  \<^verbatim>\<open>GET /__encore.Ping\<close> is registered and matches, and the request never reaches its
  handler.
\<close>

theorem exact_method_dispatch_counterexample:
  "Setup reserved_cfg = Inr reserved_srv
   \<and> segment_match ''/__encore.Ping'' ''/__encore.Ping'' = Some []
   \<and> handler segment_match sample_env reserved_srv
        \<lparr>Method = ''GET'', URL_Path = ''/__encore.Ping''\<rparr> =
       [HttpError ''unknown internal endpoint: __encore.Ping'' 404]
   \<and> handler segment_match sample_env reserved_srv
        \<lparr>Method = ''GET'', URL_Path = ''/__encore.Ping''\<rparr> \<noteq>
       [Invoke ''admin.Ping'' \<lparr>Method = ''GET'', URL_Path = ''/__encore.Ping''\<rparr> []]"
  by (simp add: reserved_setup segment_match_def handler_def TrimPrefix_def HasPrefix_def
        StatusNotFound_def)

text \<open>
  Claim C2, as amended. For a path registered both under a concrete method and under the
  wildcard marker, a request outside the reserved namespace that uses the concrete method
  is resolved by the first lookup to the exact-method handler, which is invoked; it is
  never the wildcard handler.
\<close>

theorem exact_before_wildcard:
  assumes "Setup cfg = Inr srv"
    and "e1 \<in> set (config_endpoints cfg)" and "m \<in> set (Methods e1)" and "m \<noteq> ''*''"
    and "e2 \<in> set (config_endpoints cfg)" and "registered_under wildcardMethod e2"
    and "Path e2 = Path e1"
    and "Method req = m"
    and "pm (Path e1) (URL_Path req) = Some ps"
    and "only_match pm cfg m (URL_Path req) (Path e1)"
    and "\<not> internal_namespace req"
  shows "fst (router_Lookup pm (router srv) (Method req) (URL_Path req)) = Some (Handler e1)
         \<and> handler pm env srv req = [Invoke (Handler e1) req ps]
         \<and> (Handler e2 \<noteq> Handler e1 \<longrightarrow>
              (\<forall>ps'. handler pm env srv req \<noteq> [Invoke (Handler e2) req ps']))"
proof -
  from assms(3,4) have "registered_under m e1"
    by (rule registered_under_self)
  from Setup_lookup_registered [OF assms(1,2) this assms(9,10)] assms(8)
  have hit: "lookup_routes pm (routes (router srv)) (Method req) (URL_Path req) =
               Some (Handler e1, ps)"
    by simp
  from assms(11) hit have "handler pm env srv req = [Invoke (Handler e1) req ps]"
    by (rule handler_exact)
  with router_Lookup_hit [OF hit] show ?thesis
    by simp
qed

theorem exact_before_wildcard_witness:
  "handler segment_match sample_env sample_srv \<lparr>Method = ''HEAD'', URL_Path = ''/orders/42''\<rparr> =
     [Invoke ''orders.Get'' \<lparr>Method = ''HEAD'', URL_Path = ''/orders/42''\<rparr> [(''id'', ''42'')]]
   \<and> handler segment_match sample_env sample_srv \<lparr>Method = ''HEAD'', URL_Path = ''/orders/42''\<rparr> \<noteq>
     [Invoke ''orders.Any'' \<lparr>Method = ''HEAD'', URL_Path = ''/orders/42''\<rparr> [(''id'', ''42'')]]"
  using exact_before_wildcard
          [of sample_cfg sample_srv
              "\<lparr>Name = ''Get'', Path = ''/orders/:id'', Methods = [''GET'', ''HEAD''],
                Handler = ''orders.Get''\<rparr>"
              "''HEAD''"
              "\<lparr>Name = ''Any'', Path = ''/orders/:id'', Methods = [''*''],
                Handler = ''orders.Any''\<rparr>"
              "\<lparr>Method = ''HEAD'', URL_Path = ''/orders/42''\<rparr>" segment_match
              "[(''id'', ''42'')]" sample_env]
  by (simp add: sample_setup sample_endpoints only_match_def registered_under_def
        registered_method_def wildcardMethod_def segment_match_def internal_namespace_def
        TrimPrefix_def HasPrefix_def)

text \<open>
  Claim C2 as stated fails in the reserved namespace: \<^verbatim>\<open>/__encore.ScrapeMetrics\<close> is
  registered under \<^verbatim>\<open>GET\<close> and under the wildcard marker, and a \<^verbatim>\<open>GET\<close> request runs
  the metrics scrape, not the exact-method handler.
\<close>

theorem exact_before_wildcard_counterexample:
  "Setup reserved_cfg = Inr reserved_srv
   \<and> (''GET'', ''/__encore.ScrapeMetrics'', ''admin.Scrape'') \<in> set (routes (router reserved_srv))
   \<and> (wildcardMethod, ''/__encore.ScrapeMetrics'', ''admin.ScrapeAny'')
        \<in> set (routes (router reserved_srv))
   \<and> segment_match ''/__encore.ScrapeMetrics'' ''/__encore.ScrapeMetrics'' = Some []
   \<and> handler segment_match sample_env reserved_srv
        \<lparr>Method = ''GET'', URL_Path = ''/__encore.ScrapeMetrics''\<rparr> =
       [Write ''requests_total 1'']"
proof -
  have "(''GET'', ''/__encore.ScrapeMetrics'', ''admin.Scrape'') \<in> set (routes (router reserved_srv))"
    and "(wildcardMethod, ''/__encore.ScrapeMetrics'', ''admin.ScrapeAny'')
      \<in> set (routes (router reserved_srv))"
    by (simp_all add: reserved_srv_def wildcardMethod_def)
  then show ?thesis
    by (simp add: reserved_setup segment_match_def handler_def TrimPrefix_def HasPrefix_def
          sample_scrape)
qed

text \<open>
  Claim C3, as amended. For an endpoint whose methods contain \<^verbatim>\<open>*\<close>, a request outside
  the reserved namespace, with any method under which no registered pattern matches the
  path, and a path that matches the endpoint's pattern, and no other pattern registered
  under the wildcard marker, is dispatched to that endpoint's handler.
\<close>

theorem wildcard_dispatch:
  assumes "Setup cfg = Inr srv"
    and "e \<in> set (config_endpoints cfg)" and "''*'' \<in> set (Methods e)"
    and "pm (Path e) (URL_Path req) = Some ps"
    and "no_match pm cfg (Method req) (URL_Path req)"
    and "only_match pm cfg wildcardMethod (URL_Path req) (Path e)"
    and "\<not> internal_namespace req"
  shows "handler pm env srv req = [Invoke (Handler e) req ps]"
proof -
  from assms(3) have "registered_under wildcardMethod e"
    by (rule registered_under_star)
  from Setup_lookup_registered [OF assms(1,2) this assms(4,6)]
  have wild: "lookup_routes pm (routes (router srv)) wildcardMethod (URL_Path req) =
                Some (Handler e, ps)" .
  from Setup_lookup_none [OF assms(1,5)]
  have exact: "lookup_routes pm (routes (router srv)) (Method req) (URL_Path req) = None" .
  from assms(7) exact wild show ?thesis
    by (rule handler_wildcard)
qed

theorem wildcard_dispatch_witness:
  "handler segment_match sample_env sample_srv
     \<lparr>Method = ''DELETE'', URL_Path = ''/orders/7''\<rparr> =
   [Invoke ''orders.Any'' \<lparr>Method = ''DELETE'', URL_Path = ''/orders/7''\<rparr> [(''id'', ''7'')]]"
  using wildcard_dispatch
          [of sample_cfg sample_srv
              "\<lparr>Name = ''Any'', Path = ''/orders/:id'', Methods = [''*''],
                Handler = ''orders.Any''\<rparr>"
              segment_match "\<lparr>Method = ''DELETE'', URL_Path = ''/orders/7''\<rparr>"
              "[(''id'', ''7'')]" sample_env]
  by (simp add: sample_setup sample_endpoints only_match_def no_match_def registered_under_def
        registered_method_def wildcardMethod_def segment_match_def internal_namespace_def
        TrimPrefix_def HasPrefix_def)

text \<open>
  Claim C3 as stated fails in the reserved namespace: \<^verbatim>\<open>/__encore.Ping\<close> is registered
  under the wildcard marker, nothing is registered under \<^verbatim>\<open>DELETE\<close>, and a \<^verbatim>\<open>DELETE\<close>
  request is answered with the unknown-internal-endpoint error.
\<close>

theorem wildcard_dispatch_counterexample:
  "Setup reserved_cfg = Inr reserved_srv
   \<and> (wildcardMethod, ''/__encore.Ping'', ''admin.PingAny'') \<in> set (routes (router reserved_srv))
   \<and> segment_match ''/__encore.Ping'' ''/__encore.Ping'' = Some []
   \<and> no_match segment_match reserved_cfg ''DELETE'' ''/__encore.Ping''
   \<and> handler segment_match sample_env reserved_srv
        \<lparr>Method = ''DELETE'', URL_Path = ''/__encore.Ping''\<rparr> =
       [HttpError ''unknown internal endpoint: __encore.Ping'' 404]"
proof -
  have "no_match segment_match reserved_cfg ''DELETE'' ''/__encore.Ping''"
    by (simp add: no_match_def config_endpoints_def reserved_cfg_def registered_under_def
          registered_method_def wildcardMethod_def)
  moreover have "(wildcardMethod, ''/__encore.Ping'', ''admin.PingAny'')
      \<in> set (routes (router reserved_srv))"
    by (simp add: reserved_srv_def wildcardMethod_def)
  ultimately show ?thesis
    by (simp add: reserved_setup segment_match_def handler_def TrimPrefix_def HasPrefix_def
          StatusNotFound_def)
qed

text \<open>
  Claim C8. If two endpoints of the configuration register the same method, after the
  translation of \<^verbatim>\<open>*\<close>, with the same path pattern, \<^verbatim>\<open>Setup\<close> does not return a server: it
  stops with the error of the registration, and no table with only the last registration
  is built.
\<close>

theorem duplicate_route_fails_setup:
  assumes "i < j" and "j < length (config_endpoints cfg)"
    and "m1 \<in> set (Methods (config_endpoints cfg ! i))"
    and "m2 \<in> set (Methods (config_endpoints cfg ! j))"
    and "registered_method m1 = registered_method m2"
    and "Path (config_endpoints cfg ! i) = Path (config_endpoints cfg ! j)"
  shows "\<exists>err. Setup cfg = Inl err"
proof -
  let ?eps = "config_endpoints cfg"
  let ?xss = "map (\<lambda>e. map route_key (endpoint_routes e)) ?eps"
  let ?k = "(registered_method m1, Path (?eps ! i))"
  from assms(1,2) have i: "i < length ?eps"
    by simp
  have keys: "map route_key (config_routes cfg) = concat ?xss"
    by (simp add: config_routes_def map_concat comp_def)
  from assms(3) i have "?k \<in> set (?xss ! i)"
    by (force simp: endpoint_routes_def route_key_def)
  moreover from assms(4,5,6) assms(2) have "?k \<in> set (?xss ! j)"
    by (force simp: endpoint_routes_def route_key_def)
  ultimately have "\<not> distinct (concat ?xss)"
    using assms(1,2) by (intro concat_not_distinct [of i j]) simp_all
  with keys have "\<not> distinct (map route_key (config_routes cfg))"
    by simp
  then show ?thesis
    by (rule Setup_fails)
qed

theorem duplicate_route_fails_setup_witness:
  "(\<exists>err. Setup duplicate_cfg = Inl err)
   \<and> Setup duplicate_cfg = Inl (RouteCollision ''GET'' ''/orders'')"
proof -
  have eps: "config_endpoints duplicate_cfg =
     [\<lparr>Name = ''List'', Path = ''/orders'', Methods = [''GET''], Handler = ''orders.List''\<rparr>,
      \<lparr>Name = ''Orders'', Path = ''/orders'', Methods = [''POST'', ''GET''],
       Handler = ''legacy.Orders''\<rparr>]"
    by (simp add: config_endpoints_def duplicate_cfg_def)
  have "\<exists>err. Setup duplicate_cfg = Inl err"
    using duplicate_route_fails_setup [of 0 1 duplicate_cfg "''GET''" "''GET''"]
    by (simp add: eps)
  moreover have "Setup duplicate_cfg = Inl (RouteCollision ''GET'' ''/orders'')"
    by (simp add: Setup_def duplicate_cfg_def httprouter_New_def handleRPC_def
          router_Handle_def route_key_def wildcardMethod_def Let_def)
  ultimately show ?thesis
    by blast
qed




text \<open>
  Claim C10, as amended. \<^verbatim>\<open>Setup\<close> returns a router with \<^verbatim>\<open>HandleOPTIONS\<close>,
  \<^verbatim>\<open>RedirectFixedPath\<close> and \<^verbatim>\<open>RedirectTrailingSlash\<close> disabled. A request outside the
  reserved namespace whose path matches no pattern registered under its method or under the
  wildcard marker gets the 404 routing-miss response, whatever the third result of the
  lookup is, so also when the path differs from a registered pattern only by a trailing
  slash. The only status codes the dispatcher itself writes are 404 and 500.
\<close>

theorem no_redirect_on_miss:
  assumes "Setup cfg = Inr srv"
  shows "\<not> HandleOPTIONS (router srv) \<and> \<not> RedirectFixedPath (router srv)
         \<and> \<not> RedirectTrailingSlash (router srv)
         \<and> (\<not> internal_namespace req
              \<and> no_match pm cfg (Method req) (URL_Path req)
              \<and> no_match pm cfg wildcardMethod (URL_Path req) \<longrightarrow>
            handler pm env srv req =
              [UnknownEndpoint
                 (fst (unknown_endpoint_names_spec (TrimPrefix (URL_Path req) ''/'')))
                 (snd (unknown_endpoint_names_spec (TrimPrefix (URL_Path req) ''/''))),
               HeaderSet ''Content-Type'' ''application/json'',
               WriteHeader 404,
               Write not_found_body])
         \<and> set (written_statuses (handler pm env srv req)) \<subseteq> {404, 500}"
proof -
  from Setup_Inr(1) [OF assms] have flags:
    "\<not> HandleOPTIONS (router srv)" "\<not> RedirectFixedPath (router srv)"
    "\<not> RedirectTrailingSlash (router srv)"
    by simp_all
  have miss: "handler pm env srv req =
      [UnknownEndpoint
         (fst (unknown_endpoint_names_spec (TrimPrefix (URL_Path req) ''/'')))
         (snd (unknown_endpoint_names_spec (TrimPrefix (URL_Path req) ''/''))),
       HeaderSet ''Content-Type'' ''application/json'', WriteHeader 404, Write not_found_body]"
    if "\<not> internal_namespace req" and "no_match pm cfg (Method req) (URL_Path req)"
      and "no_match pm cfg wildcardMethod (URL_Path req)"
    using that(1) Setup_lookup_none [OF assms that(2)] Setup_lookup_none [OF assms that(3)]
    by (rule handler_miss)
  from flags miss handler_statuses [of pm env srv req] show ?thesis
    by blast
qed

theorem no_redirect_on_miss_witness:
  "toggle_slash ''/orders.Create/'' = ''/orders.Create''
   \<and> router_Lookup segment_match (router sample_srv) ''POST'' ''/orders.Create/'' =
       (None, [], True)
   \<and> handler segment_match sample_env sample_srv
        \<lparr>Method = ''POST'', URL_Path = ''/orders.Create/''\<rparr> =
       [UnknownEndpoint ''orders'' ''Create/'',
        HeaderSet ''Content-Type'' ''application/json'',
        WriteHeader 404,
        Write not_found_body]
   \<and> \<not> RedirectTrailingSlash (router sample_srv)"
proof -
  have "router_Lookup segment_match (router sample_srv) ''POST'' ''/orders.Create/'' =
       (None, [], True)"
    by (simp add: router_Lookup_def sample_srv_def segment_match_def toggle_slash_def)
  moreover have "toggle_slash ''/orders.Create/'' = ''/orders.Create''"
    by (simp add: toggle_slash_def)
  ultimately show ?thesis
    using no_redirect_on_miss
            [of sample_cfg sample_srv "\<lparr>Method = ''POST'', URL_Path = ''/orders.Create/''\<rparr>"
                segment_match sample_env]
    by (simp add: sample_setup sample_endpoints no_match_def registered_under_def
          registered_method_def wildcardMethod_def segment_match_def internal_namespace_def
          TrimPrefix_def HasPrefix_def unknown_endpoint_names_spec_def)
qed

text \<open>
  Claim C10 as stated fails when the path with the trailing slash is registered too:
  \<^verbatim>\<open>/files/\<close> differs from the registered pattern \<^verbatim>\<open>/files\<close> only by the trailing slash,
  and the request is dispatched to the handler of \<^verbatim>\<open>/files/\<close>, not answered with 404.
\<close>

theorem no_redirect_on_miss_counterexample:
  "Setup sample_cfg = Inr sample_srv
   \<and> (''GET'', ''/files'', ''files.List'') \<in> set (routes (router sample_srv))
   \<and> toggle_slash ''/files/'' = ''/files''
   \<and> handler segment_match sample_env sample_srv \<lparr>Method = ''GET'', URL_Path = ''/files/''\<rparr> =
       [Invoke ''files.Index'' \<lparr>Method = ''GET'', URL_Path = ''/files/''\<rparr> []]"
proof -
  have "(''GET'', ''/files'', ''files.List'') \<in> set (routes (router sample_srv))"
    by (simp add: sample_srv_def)
  moreover have "handler segment_match sample_env sample_srv
      \<lparr>Method = ''GET'', URL_Path = ''/files/''\<rparr> =
      [Invoke ''files.Index'' \<lparr>Method = ''GET'', URL_Path = ''/files/''\<rparr> []]"
    by (simp add: handler_def router_Lookup_def sample_srv_def segment_match_def
          TrimPrefix_def HasPrefix_def)
  ultimately show ?thesis
    by (simp add: sample_setup toggle_slash_def)
qed

end
